theory Spec2Isabelle
  imports
    Main
    "HOL-Library.Multiset"
    "HOL-Library.AList"
    "HOL-Library.Sublist"
    "HOL-Library.Char_ord"
    "HOL-Library.List_Lexorder"
begin

section \<open>nmapTables: the version table built from Nmap XML files\<close>

text \<open>
  The program (\<^verbatim>\<open>main.go\<close>) walks a directory for \<^verbatim>\<open>.xml\<close> files, parses each one as
  an Nmap run, collects the \<^verbatim>\<open>host:port\<close> of every port that runs the requested service,
  grouped by the detected product and version, and renders the table with an HTML template.

  Go strings are byte sequences and \<^verbatim>\<open><\<close> on them compares bytes lexicographically;
  \<^typ>\<open>string\<close> with the orders of \<^verbatim>\<open>Char_ord\<close> and \<^verbatim>\<open>List_Lexorder\<close> is the same order.
\<close>

subsection \<open>The parsed document\<close>

text \<open>
  \<^verbatim>\<open>type Nmaprun struct\<close> (lines 161-327). Only the fields that the program reads are
  kept: \<^verbatim>\<open>Host.Address[].Addr\<close>, \<^verbatim>\<open>Host.Ports.Port[]\<close> and, of a port, \<^verbatim>\<open>Portid\<close>,
  \<^verbatim>\<open>State.State\<close>, \<^verbatim>\<open>Service.Name\<close>, \<^verbatim>\<open>Service.Product\<close> and \<^verbatim>\<open>Service.Version\<close>.
  Every field is a Go \<^verbatim>\<open>string\<close>; the document has one \<^verbatim>\<open>Host\<close>.
\<close>

record address_t =
  Addr :: string

record state_t =
  State :: string

record service_t =
  Name :: string
  Product :: string
  Version :: string

record port_t =
  Portid :: string
  PortState :: state_t
  Service :: service_t

record ports_t =
  Port :: "port_t list"

record host_t =
  Address :: "address_t list"
  Ports :: ports_t

record Nmaprun =
  Host :: host_t

subsection \<open>The library functions the program calls\<close>

text \<open>
  \<^verbatim>\<open>os.ReadFile\<close> and \<^verbatim>\<open>xml.Unmarshal\<close> are not part of the program: they are parameters
  of the model. Each returns an error (its message, \<^verbatim>\<open>Inl\<close>) or a value.
\<close>

record world =
  ReadFile :: "string \<Rightarrow> string + string"
  Unmarshal :: "string \<Rightarrow> string + Nmaprun"

text \<open>\<^verbatim>\<open>fmt.Sprintf("%s %s", a, b)\<close>.\<close>

definition Sprintf_s_s :: "string \<Rightarrow> string \<Rightarrow> string" where
  "Sprintf_s_s a b = a @ '' '' @ b"

text \<open>\<^verbatim>\<open>strings.Join(elems, sep)\<close>.\<close>

fun Join :: "string list \<Rightarrow> string \<Rightarrow> string" where
  "Join [] sep = ''''"
| "Join [x] sep = x"
| "Join (x # y # ys) sep = x @ sep @ Join (y # ys) sep"

text \<open>
  \<^verbatim>\<open>sort.Strings\<close> sorts a slice of strings ascending. The sorted arrangement of a list
  of strings is unique, so the insertion sort of the library computes what any sorting
  algorithm returns.
\<close>

definition sort_Strings :: "string list \<Rightarrow> string list" where
  "sort_Strings hosts = sort hosts"

text \<open>
  \<^verbatim>\<open>sort.Slice(data, func(i, j int) bool { return data[i][2] < data[j][2] })\<close>.
  \<^verbatim>\<open>sort.Slice\<close> is not stable; rows that compare equal could come out in any order. The
  rows sorted here carry pairwise different keys (they are the keys of one map), so the
  result is unique; see \<open>sort_Slice_unique\<close> below. Every row has three elements, so
  the index 2 is in range.
\<close>

definition sort_Slice :: "string list list \<Rightarrow> string list list" where
  "sort_Slice data = sort_key (\<lambda>row. row ! 2) data"

subsection \<open>The map from version to hosts\<close>

text \<open>
  \<^verbatim>\<open>versionMap := make(map[string][]string)\<close>. The map is an association list with
  one entry per key. Reading a key that is absent gives the nil slice; assigning to a key
  replaces its entry or adds one.
\<close>

type_synonym versionMap = "(string \<times> string list) list"

definition map_index :: "versionMap \<Rightarrow> string \<Rightarrow> string list" where
  "map_index m k = (case map_of m k of None \<Rightarrow> [] | Some hosts \<Rightarrow> hosts)"

definition map_assign :: "versionMap \<Rightarrow> string \<Rightarrow> string list \<Rightarrow> versionMap" where
  "map_assign m k hosts = AList.update k hosts m"

text \<open>
  \<^verbatim>\<open>for version, hosts := range versionMap\<close>: Go leaves the order in which a map is
  iterated unspecified, and it may differ from run to run. The order is a parameter of
  the model: a list of choices, each picking the next entry among those not yet visited.
  Every choice list gives a permutation of the entries and every permutation is given by
  some choice list (\<open>mset_range_order\<close>, \<open>range_order_any\<close>).
\<close>

primrec range_order :: "nat list \<Rightarrow> 'a list \<Rightarrow> 'a list" where
  "range_order [] entries = entries"
| "range_order (c # cs) entries =
     (case entries of
        [] \<Rightarrow> []
      | _ # _ \<Rightarrow>
          (let i = c mod length entries
           in entries ! i # range_order cs (take i entries @ drop (Suc i) entries)))"

subsection \<open>GenerateTableData\<close>

text \<open>The body of the loop over the ports of one document (lines 35-48).\<close>

definition port_step :: "string \<Rightarrow> Nmaprun \<Rightarrow> versionMap \<Rightarrow> port_t \<Rightarrow> versionMap" where
  "port_step serviceName nmapRun versionMap port =
     (if State (PortState port) = ''filtered'' then versionMap
      else if Name (Service port) = serviceName then
        (let hostIP = (if length (Address (Host nmapRun)) > 0
                       then Addr (Address (Host nmapRun) ! 0) else '''');
             portID = Portid port;
             serviceVersion = Sprintf_s_s (Product (Service port)) (Version (Service port));
             hostPort = hostIP @ '':'' @ portID
         in map_assign versionMap serviceVersion
              (map_index versionMap serviceVersion @ [hostPort]))
      else versionMap)"

text \<open>
  The state of the loop over the files: the map, and what has been printed on the
  standard output (one element per \<^verbatim>\<open>fmt.Printf\<close>).
\<close>

record gen_state =
  versionMap :: versionMap
  stdout :: "string list"

definition newline :: string where
  "newline = [CHR 0x0A]"

text \<open>The body of the loop over the files (lines 21-49).\<close>

definition file_step :: "world \<Rightarrow> string \<Rightarrow> gen_state \<Rightarrow> string \<Rightarrow> gen_state" where
  "file_step w serviceName st filePath =
     (case ReadFile w filePath of
        Inl err \<Rightarrow>
          st\<lparr>stdout := stdout st @
            [''Error reading file '' @ filePath @ '': '' @ err @ newline]\<rparr>
      | Inr fileData \<Rightarrow>
          (case Unmarshal w fileData of
             Inl err \<Rightarrow>
               st\<lparr>stdout := stdout st @
                 [''Failed to unmarshal xml data in '' @ filePath @ newline @
                  ''Error: '' @ err @ newline]\<rparr>
           | Inr nmapRun \<Rightarrow>
               st\<lparr>versionMap :=
                 foldl (port_step serviceName nmapRun) (versionMap st)
                   (Port (Ports (Host nmapRun)))\<rparr>))"

definition read_files :: "world \<Rightarrow> string list \<Rightarrow> string \<Rightarrow> gen_state" where
  "read_files w nmapFiles serviceName =
     foldl (file_step w serviceName) \<lparr>versionMap = [], stdout = []\<rparr> nmapFiles"

text \<open>One row of the table (lines 54-56).\<close>

definition table_row :: "string \<Rightarrow> string \<times> string list \<Rightarrow> string list" where
  "table_row serviceName entry =
     (case entry of (version, hosts) \<Rightarrow>
        (let hostsJoined = Join (sort_Strings hosts) ''<br>''
         in [hostsJoined, serviceName, version]))"

text \<open>
  The value that \<^verbatim>\<open>GenerateTableData\<close> returns (lines 17-65); \<open>order\<close> is the order
  in which the map happens to be iterated. What it prints is \<open>GenerateTableData_stdout\<close>.
\<close>

definition GenerateTableData ::
    "world \<Rightarrow> nat list \<Rightarrow> string list \<Rightarrow> string \<Rightarrow> string list list" where
  "GenerateTableData w order nmapFiles serviceName =
     (let versionMap = versionMap (read_files w nmapFiles serviceName);
          data = map (table_row serviceName) (range_order order versionMap)
      in sort_Slice data)"


subsection \<open>The input as a list of observations\<close>

text \<open>
  The specification speaks of the input as Observations, one per scanned port:
  \<open>observation\<close> is what lines 35-46 read of a port and of its document (the host is
  the first listed address, or empty when there is none), and \<open>Observations\<close> lists
  them in the order in which the two loops (lines 20 and 34) meet them. A file that
  cannot be read or parsed has none.
\<close>

record Observation =
  host :: string
  port :: string
  portState :: string
  serviceName :: string
  serviceProduct :: string
  serviceVersion :: string

definition observation :: "Nmaprun \<Rightarrow> port_t \<Rightarrow> Observation" where
  "observation nmapRun p =
     \<lparr>host = (if length (Address (Host nmapRun)) > 0
              then Addr (Address (Host nmapRun) ! 0) else ''''),
      port = Portid p,
      portState = State (PortState p),
      serviceName = Name (Service p),
      serviceProduct = Product (Service p),
      serviceVersion = Version (Service p)\<rparr>"

definition file_observations :: "world \<Rightarrow> string \<Rightarrow> Observation list" where
  "file_observations w filePath =
     (case ReadFile w filePath of
        Inl err \<Rightarrow> []
      | Inr fileData \<Rightarrow>
          (case Unmarshal w fileData of
             Inl err \<Rightarrow> []
           | Inr nmapRun \<Rightarrow> map (observation nmapRun) (Port (Ports (Host nmapRun)))))"

definition Observations :: "world \<Rightarrow> string list \<Rightarrow> Observation list" where
  "Observations w nmapFiles = concat (map (file_observations w) nmapFiles)"

text \<open>
  An observation is kept when its port is not filtered and its service is the requested
  one (lines 35 and 38); \<open>hostPort\<close> and \<open>VersionKey\<close> are the strings of lines 46
  and 44. \<open>bucket\<close> lists, in input order, the \<^verbatim>\<open>host:port\<close> of the kept observations
  that have a given key; \<open>obs_step\<close> is \<open>port_step\<close> on an observation.
\<close>

definition kept :: "string \<Rightarrow> Observation \<Rightarrow> bool" where
  "kept name ob = (portState ob \<noteq> ''filtered'' \<and> serviceName ob = name)"

definition hostPort :: "Observation \<Rightarrow> string" where
  "hostPort ob = host ob @ '':'' @ port ob"

definition VersionKey :: "Observation \<Rightarrow> string" where
  "VersionKey ob = serviceProduct ob @ '' '' @ serviceVersion ob"

definition bucket :: "string \<Rightarrow> Observation list \<Rightarrow> string \<Rightarrow> string list" where
  "bucket name obs k = map hostPort (filter (\<lambda>ob. kept name ob \<and> VersionKey ob = k) obs)"

definition obs_step :: "string \<Rightarrow> versionMap \<Rightarrow> Observation \<Rightarrow> versionMap" where
  "obs_step name m ob =
     (if kept name ob
      then map_assign m (VersionKey ob) (map_index m (VersionKey ob) @ [hostPort ob])
      else m)"

text \<open>
  The table in closed form: one row per key of a kept observation, the keys ascending,
  each row holding the sorted bucket of its key. \<open>GenerateTableData_rows\<close> below
  proves that this is what \<open>GenerateTableData\<close> returns.
\<close>

definition key_row :: "string \<Rightarrow> Observation list \<Rightarrow> string \<Rightarrow> string list" where
  "key_row name obs k = [Join (sort (bucket name obs k)) ''<br>'', name, k]"

definition version_keys :: "string \<Rightarrow> Observation list \<Rightarrow> string list" where
  "version_keys name obs = sort (remdups (map VersionKey (filter (kept name) obs)))"


subsection \<open>Splitting a joined field\<close>

text \<open>
  \<^verbatim>\<open>strings.Split(s, "<br>")\<close>, which a reader of the table uses to get the entries of
  a joined field back: the string is cut at each occurrence of the separator, found from
  the left; \<open>cur\<close> is the piece read so far.
\<close>

fun split_at :: "string \<Rightarrow> string \<Rightarrow> string \<Rightarrow> string list" where
  "split_at sep cur [] = [cur]"
| "split_at sep cur (c # cs) =
     (if sep \<noteq> [] \<and> prefix sep (c # cs)
      then cur # split_at sep [] (drop (length sep) (c # cs))
      else split_at sep (cur @ [c]) cs)"

definition Split_br :: "string \<Rightarrow> string list" where
  "Split_br s = split_at ''<br>'' [] s"

subsection \<open>The rest of the program\<close>











subsection \<open>Inputs for the examples\<close>

definition mk_port :: "string \<Rightarrow> string \<Rightarrow> string \<Rightarrow> string \<Rightarrow> string \<Rightarrow> port_t" where
  "mk_port portid st nm product ver =
     \<lparr>Portid = portid, PortState = \<lparr>State = st\<rparr>,
      Service = \<lparr>Name = nm, Product = product, Version = ver\<rparr>\<rparr>"

definition mk_run :: "string list \<Rightarrow> port_t list \<Rightarrow> Nmaprun" where
  "mk_run addrs ps =
     \<lparr>Host = \<lparr>Address = map (\<lambda>a. \<lparr>Addr = a\<rparr>) addrs, Ports = \<lparr>Port = ps\<rparr>\<rparr>\<rparr>"

text \<open>
  A file system given by a list of documents: the path of a file, its bytes, and the
  document that the bytes parse to, or the parser's error.
\<close>

definition mk_world :: "(string \<times> string \<times> (string + Nmaprun)) list \<Rightarrow> world" where
  "mk_world docs =
     \<lparr>ReadFile = (\<lambda>p. case map_of docs p of
                         None \<Rightarrow> Inl ''open: no such file or directory''
                       | Some (bytes, r) \<Rightarrow> Inr bytes),
      Unmarshal = (\<lambda>bytes. case map_of (map snd docs) bytes of
                              None \<Rightarrow> Inl ''EOF''
                            | Some r \<Rightarrow> r)\<rparr>"

text \<open>The scenario of the specification: three documents with one port each.\<close>

definition scenario_world :: world where
  "scenario_world = mk_world
     [(''a.xml'', ''A'', Inr (mk_run [''10.0.0.1'']
         [mk_port ''1433'' ''open'' ''ms-sql-s'' ''Microsoft SQL Server'' ''2019''])),
      (''b.xml'', ''B'', Inr (mk_run [''10.0.0.2'']
         [mk_port ''1433'' ''open'' ''ms-sql-s'' ''Microsoft SQL Server'' ''2019''])),
      (''c.xml'', ''C'', Inr (mk_run [''10.0.0.3'']
         [mk_port ''1433'' ''filtered'' ''ms-sql-s'' ''X'' ''1'']))]"

text \<open>
  A directory of scans of web servers: two hosts with the same server, one of them with
  two addresses and a second server, a host without an address and without product and
  version, a file that does not parse, a document with only a filtered port, and one
  whose service name differs in case.
\<close>

definition web_world :: world where
  "web_world = mk_world
     [(''/scans/h2.xml'', ''H2'', Inr (mk_run [''2.2.2.2'']
         [mk_port ''80'' ''open'' ''http'' ''nginx'' ''1.18'',
          mk_port ''22'' ''open'' ''ssh'' ''OpenSSH'' ''8.2''])),
      (''/scans/h1.xml'', ''H1'', Inr (mk_run [''1.1.1.1'', ''fe80::1'']
         [mk_port ''80'' ''open'' ''http'' ''nginx'' ''1.18'',
          mk_port ''8080'' ''open'' ''http'' ''Apache httpd'' ''2.4''])),
      (''/scans/h0.xml'', ''H0'', Inr (mk_run []
         [mk_port ''80'' ''open'' ''http'' '''' ''''])),
      (''/scans/bad.xml'', ''BAD'', Inl ''XML syntax error on line 1''),
      (''/scans/filtered.xml'', ''F'', Inr (mk_run [''4.4.4.4'']
         [mk_port ''80'' ''filtered'' ''http'' ''nginx'' ''1.18''])),
      (''/scans/upper.xml'', ''U'', Inr (mk_run [''3.3.3.3'']
         [mk_port ''80'' ''open'' ''HTTP'' ''nginx'' ''1.18'']))]"

text \<open>A document whose address contains the separator of the hosts field.\<close>

definition markup_world :: world where
  "markup_world = mk_world
     [(''m.xml'', ''M'', Inr (mk_run [''b<br>a'']
         [mk_port ''1'' ''open'' ''http'' ''nginx'' ''1.18'']))]"

text \<open>
  Two inputs that give the same table: one document whose address contains the
  separator, and two documents whose entries, joined, are the same string.
\<close>

definition joined_world :: world where
  "joined_world = mk_world
     [(''one.xml'', ''ONE'', Inr (mk_run [''x:1<br>y'']
         [mk_port ''2'' ''open'' ''http'' ''nginx'' ''1.18''])),
      (''x.xml'', ''X'', Inr (mk_run [''x'']
         [mk_port ''1'' ''open'' ''http'' ''nginx'' ''1.18''])),
      (''y.xml'', ''Y'', Inr (mk_run [''y'']
         [mk_port ''2'' ''open'' ''http'' ''nginx'' ''1.18'']))]"




subsection \<open>What the loops build\<close>

lemma port_step_obs: "port_step name r m p = obs_step name m (observation r p)"
  by (simp add: port_step_def obs_step_def observation_def kept_def hostPort_def
      VersionKey_def Sprintf_s_s_def Let_def)

lemma foldl_port_step_obs:
  "foldl (port_step name r) m ps = foldl (obs_step name) m (map (observation r) ps)"
  by (induction ps arbitrary: m) (simp_all add: port_step_obs)

lemma file_step_versionMap:
  "versionMap (file_step w name st f) =
     foldl (obs_step name) (versionMap st) (file_observations w f)"
  by (simp add: file_step_def file_observations_def foldl_port_step_obs split: sum.splits)

lemma foldl_file_step_versionMap:
  "versionMap (foldl (file_step w name) st fs) =
     foldl (obs_step name) (versionMap st) (concat (map (file_observations w) fs))"
  by (induction fs arbitrary: st) (simp_all add: file_step_versionMap)

lemma read_files_versionMap:
  "versionMap (read_files w fs name) = foldl (obs_step name) [] (Observations w fs)"
  by (simp add: read_files_def Observations_def foldl_file_step_versionMap)

lemma map_index_Nil: "map_index [] k = []"
  by (simp add: map_index_def)

lemma map_index_assign:
  "map_index (map_assign m k v) k' = (if k' = k then v else map_index m k')"
  by (simp add: map_index_def map_assign_def update_conv')

lemma map_index_obs_step:
  "map_index (obs_step name m ob) k =
     map_index m k @ (if kept name ob \<and> VersionKey ob = k then [hostPort ob] else [])"
  by (auto simp: obs_step_def map_index_assign)

lemma map_index_foldl_obs_step:
  "map_index (foldl (obs_step name) m obs) k = map_index m k @ bucket name obs k"
  by (induction obs arbitrary: m) (auto simp: bucket_def map_index_obs_step)

lemma keys_obs_step:
  "fst ` set (obs_step name m ob) =
     fst ` set m \<union> (if kept name ob then {VersionKey ob} else {})"
  by (auto simp: obs_step_def map_assign_def dom_update)

lemma keys_foldl_obs_step:
  "fst ` set (foldl (obs_step name) m obs) =
     fst ` set m \<union> VersionKey ` {ob \<in> set obs. kept name ob}"
  by (induction obs arbitrary: m) (auto simp: keys_obs_step)

lemma distinct_obs_step:
  "distinct (map fst m) \<Longrightarrow> distinct (map fst (obs_step name m ob))"
  by (simp add: obs_step_def map_assign_def distinct_update)

lemma distinct_foldl_obs_step:
  "distinct (map fst m) \<Longrightarrow> distinct (map fst (foldl (obs_step name) m obs))"
  by (induction obs arbitrary: m) (simp_all add: distinct_obs_step)

lemma range_order_Cons:
  "xs \<noteq> [] \<Longrightarrow> range_order (c # cs) xs =
     xs ! (c mod length xs) #
       range_order cs (take (c mod length xs) xs @ drop (Suc (c mod length xs)) xs)"
  by (cases xs) (simp_all add: Let_def)

lemma mset_range_order: "mset (range_order cs xs) = mset xs"
proof (induction cs arbitrary: xs)
  case Nil
  show ?case by simp
next
  case (Cons c cs)
  show ?case
  proof (cases "xs = []")
    case True
    then show ?thesis by simp
  next
    case False
    define i where "i = c mod length xs"
    have i: "i < length xs" using False by (simp add: i_def)
    have "mset xs = mset (take i xs @ xs ! i # drop (Suc i) xs)"
      using i by (simp add: id_take_nth_drop [symmetric])
    also have "\<dots> = add_mset (xs ! i) (mset (take i xs @ drop (Suc i) xs))"
      by simp
    also have "\<dots> = mset (range_order (c # cs) xs)"
      unfolding range_order_Cons [OF False] i_def [symmetric]
      by (simp only: mset.simps Cons.IH)
    finally show ?thesis by simp
  qed
qed

lemma range_order_any: "mset ys = mset xs \<Longrightarrow> \<exists>cs. range_order cs xs = ys"
proof (induction ys arbitrary: xs)
  case Nil
  then have "range_order [] xs = []" by simp
  then show ?case by blast
next
  case (Cons y ys)
  have "y \<in> set xs" using Cons.prems by (metis list.set_intros(1) mset_eq_setD)
  then obtain i where i: "i < length xs" "xs ! i = y" by (auto simp: in_set_conv_nth)
  have xs: "xs = take i xs @ y # drop (Suc i) xs"
    using i id_take_nth_drop by blast
  have "mset xs = mset (take i xs @ drop (Suc i) xs) + {#y#}"
    by (subst xs) simp
  then have "mset ys = mset (take i xs @ drop (Suc i) xs)"
    using Cons.prems by simp
  then obtain cs where cs: "range_order cs (take i xs @ drop (Suc i) xs) = ys"
    using Cons.IH by blast
  have "xs \<noteq> []" using i by auto
  then have "range_order (i # cs) xs = y # ys"
    using i cs by (simp add: range_order_Cons del: range_order.simps)
  then show ?case by blast
qed

lemma table_row_entry:
  assumes "distinct (map fst m)" "e \<in> set m"
  shows "table_row name e = [Join (sort (map_index m (fst e))) ''<br>'', name, fst e]"
proof -
  obtain k hosts where e: "e = (k, hosts)" by (cases e)
  have "map_of m k = Some hosts" using assms e by simp
  then show ?thesis by (simp add: table_row_def e map_index_def sort_Strings_def)
qed

lemma sort_Slice_rows:
  assumes "distinct ks"
  shows "sort_Slice (map (\<lambda>k. [g k, name, k]) ks) = map (\<lambda>k. [g k, name, k]) (sort ks)"
  unfolding sort_Slice_def
proof (rule sort_key_inj_key_eq)
  show "mset (map (\<lambda>k. [g k, name, k]) ks) = mset (map (\<lambda>k. [g k, name, k]) (sort ks))"
    by simp
  show "inj_on (\<lambda>row. row ! 2) (set (map (\<lambda>k. [g k, name, k]) ks))"
    by (auto simp: inj_on_def)
  show "sorted (map (\<lambda>row. row ! 2) (map (\<lambda>k. [g k, name, k]) (sort ks)))"
    by (simp add: comp_def)
qed

lemma GenerateTableData_rows:
  "GenerateTableData w order files name =
     map (key_row name (Observations w files)) (version_keys name (Observations w files))"
proof -
  define obs where "obs = Observations w files"
  define m where "m = foldl (obs_step name) [] obs"
  define es where "es = range_order order m"
  have dist: "distinct (map fst m)"
    unfolding m_def by (rule distinct_foldl_obs_step) simp
  have mset_es: "mset es = mset m" by (simp add: es_def mset_range_order)
  then have set_es: "set es = set m" by (rule mset_eq_setD)
  have row: "table_row name e = key_row name obs (fst e)" if "e \<in> set es" for e
    using table_row_entry [OF dist, of e name] that set_es
    by (simp add: key_row_def m_def map_index_foldl_obs_step map_index_Nil)
  have rows: "map (table_row name) es = map (key_row name obs) (map fst es)"
    using row by simp
  have "mset (map fst es) = mset (map fst m)" using mset_es by (metis mset_map)
  then have dist_es: "distinct (map fst es)" using dist by (metis mset_eq_imp_distinct_iff)
  have keys: "set (map fst es) = VersionKey ` {ob \<in> set obs. kept name ob}"
    using set_es by (simp add: m_def keys_foldl_obs_step)
  have "set (remdups (map VersionKey (filter (kept name) obs))) = set (map fst es)"
    using keys by auto
  then have "mset (remdups (map VersionKey (filter (kept name) obs))) = mset (map fst es)"
    using dist_es by (simp only: set_eq_iff_mset_eq_distinct [symmetric] distinct_remdups)
  then have "sort (map fst es) = version_keys name obs"
    unfolding version_keys_def by (intro properties_for_sort) simp_all
  then have "sort_Slice (map (key_row name obs) (map fst es))
      = map (key_row name obs) (version_keys name obs)"
    using sort_Slice_rows [OF dist_es, of "\<lambda>k. Join (sort (bucket name obs k)) ''<br>''" name]
    by (simp add: key_row_def [abs_def])
  then show ?thesis
    by (simp add: GenerateTableData_def Let_def read_files_versionMap rows
        obs_def [symmetric] m_def [symmetric] es_def [symmetric])
qed

subsection \<open>The table depends on the kept observations only\<close>

lemma sort_remdups_cong: "set xs = set ys \<Longrightarrow> sort (remdups xs) = sort (remdups ys)"
  by (simp add: sorted_list_of_set_sort_remdups [symmetric])

lemma version_keys_cong:
  assumes "mset (filter (kept name) obs1) = mset (filter (kept name) obs2)"
  shows "version_keys name obs1 = version_keys name obs2"
proof -
  have "set (filter (kept name) obs1) = set (filter (kept name) obs2)"
    using assms by (rule mset_eq_setD)
  then have "set (map VersionKey (filter (kept name) obs1))
      = set (map VersionKey (filter (kept name) obs2))"
    by (simp only: set_map)
  then show ?thesis
    unfolding version_keys_def by (rule sort_remdups_cong)
qed

lemma bucket_kept: "bucket name obs k =
    map hostPort (filter (\<lambda>ob. VersionKey ob = k) (filter (kept name) obs))"
  by (simp add: bucket_def conj_commute)

lemma bucket_cong:
  assumes "mset (filter (kept name) obs1) = mset (filter (kept name) obs2)"
  shows "sort (bucket name obs1 k) = sort (bucket name obs2 k)"
proof -
  have "mset (bucket name obs1 k) = mset (bucket name obs2 k)"
    unfolding bucket_kept mset_map mset_filter using assms by (simp only: mset_filter)
  then show ?thesis
    by (intro properties_for_sort) simp_all
qed

lemma table_cong:
  assumes "mset (filter (kept name) obs1) = mset (filter (kept name) obs2)"
  shows "map (key_row name obs1) (version_keys name obs1)
       = map (key_row name obs2) (version_keys name obs2)"
  by (simp add: key_row_def version_keys_cong [OF assms] bucket_cong [OF assms])

lemma kept_filter_state:
  "filter (kept name) obs =
     filter (\<lambda>ob. serviceName ob = name) (filter (\<lambda>ob. portState ob \<noteq> ''filtered'') obs)"
  by (induction obs) (auto simp: kept_def)

lemma kept_filter_name:
  "filter (kept name) obs =
     filter (\<lambda>ob. portState ob \<noteq> ''filtered'') (filter (\<lambda>ob. serviceName ob = name) obs)"
  by (induction obs) (auto simp: kept_def)

lemmas example_defs = web_world_def scenario_world_def markup_world_def mk_world_def
  mk_run_def mk_port_def

lemmas obs_defs = Observations_def file_observations_def observation_def

lemma sum_mset_groups:
  assumes "distinct ks" "f ` set xs \<subseteq> set ks"
  shows "(\<Sum>k\<leftarrow>ks. mset (map g (filter (\<lambda>x. f x = k) xs))) = mset (map g xs)"
  using assms(2)
proof (induction xs)
  case Nil
  show ?case by simp
next
  case (Cons x xs)
  have one: "(\<Sum>k\<leftarrow>ks. if f x = k then {#g x#} else {#}) = {#g x#}"
    using assms(1) Cons.prems
    by (simp add: sum_list_distinct_conv_sum_set sum.delta')
  have "(\<Sum>k\<leftarrow>ks. mset (map g (filter (\<lambda>x. f x = k) (x # xs))))
      = (\<Sum>k\<leftarrow>ks. (if f x = k then {#g x#} else {#}) + mset (map g (filter (\<lambda>x. f x = k) xs)))"
    by (intro arg_cong [where f = sum_list] map_cong) auto
  also have "\<dots> = {#g x#} + mset (map g xs)"
    using Cons by (simp add: sum_list_addf one)
  finally show ?case by simp
qed

lemma set_version_keys:
  "set (version_keys name obs) = VersionKey ` {ob \<in> set obs. kept name ob}"
  by (auto simp: version_keys_def)

lemma distinct_version_keys: "distinct (version_keys name obs)"
  by (simp add: version_keys_def)

lemma sum_buckets:
  "(\<Sum>k\<leftarrow>version_keys name obs. mset (bucket name obs k))
     = mset (map hostPort (filter (kept name) obs))"
  unfolding bucket_kept
  by (rule sum_mset_groups) (auto simp: distinct_version_keys set_version_keys)

lemma keys_of_rows:
  "map (\<lambda>row. row ! 2) (map (key_row name obs) ks) = ks"
  by (simp add: key_row_def comp_def)

subsection \<open>The iteration order and the final sort\<close>

lemma sort_Slice_unique:
  assumes "distinct (map (\<lambda>row. row ! 2) data)" "mset out = mset data"
    and "sorted (map (\<lambda>row. row ! 2) out)"
  shows "sort_Slice data = out"
  unfolding sort_Slice_def
proof (rule sort_key_inj_key_eq)
  show "mset data = mset out" using assms(2) by simp
  show "inj_on (\<lambda>row. row ! 2) (set data)"
    using assms(1) by (simp add: distinct_map)
  show "sorted (map (\<lambda>row. row ! 2) out)" by (rule assms(3))
qed

lemma table_row_key: "table_row name e ! 2 = fst e"
  by (cases e) (simp add: table_row_def)

lemma data_keys_distinct:
  "distinct (map (\<lambda>row. row ! 2)
     (map (table_row name) (range_order order (versionMap (read_files w files name)))))"
proof -
  have "distinct (map fst (versionMap (read_files w files name)))"
    unfolding read_files_versionMap by (rule distinct_foldl_obs_step) simp
  moreover have "mset (map fst (range_order order (versionMap (read_files w files name))))
      = mset (map fst (versionMap (read_files w files name)))"
    by (simp add: mset_range_order)
  ultimately have "distinct (map fst (range_order order (versionMap (read_files w files name))))"
    by (metis mset_eq_imp_distinct_iff)
  then show ?thesis
    by (simp add: comp_def table_row_key)
qed

subsection \<open>Splitting what was joined\<close>

text \<open>
  No proper suffix of \<^verbatim>\<open><br>\<close> is a prefix of it, so an occurrence of the separator
  in a joined string that does not lie inside an element is one of the separators that
  \<open>Join\<close> put there.
\<close>

lemma br_no_overlap:
  assumes "prefix ''<br>'' (x @ ''<br>'' @ t)" "x \<noteq> []"
  shows "prefix ''<br>'' x"
proof (cases x)
  case Nil
  then show ?thesis using assms by simp
next
  case x1: (Cons a x1)
  show ?thesis
  proof (cases x1)
    case Nil
    then show ?thesis using assms x1 by simp
  next
    case x2: (Cons b x2)
    show ?thesis
    proof (cases x2)
      case Nil
      then show ?thesis using assms x1 x2 by simp
    next
      case x3: (Cons c x3)
      show ?thesis
      proof (cases x3)
        case Nil
        then show ?thesis using assms x1 x2 x3 by simp
      next
        case (Cons d x4)
        then show ?thesis using assms x1 x2 x3 by simp
      qed
    qed
  qed
qed

lemma split_at_br_sep:
  "split_at ''<br>'' cur (''<br>'' @ t) = cur # split_at ''<br>'' [] t"
  by simp

lemma split_at_entry:
  "\<not> sublist ''<br>'' x \<Longrightarrow>
     split_at ''<br>'' cur (x @ ''<br>'' @ t) = (cur @ x) # split_at ''<br>'' [] t"
proof (induction x arbitrary: cur)
  case Nil
  show ?case by simp
next
  case (Cons c x)
  have "\<not> prefix ''<br>'' (c # x)"
    using Cons.prems prefix_imp_sublist by blast
  then have np: "\<not> prefix ''<br>'' ((c # x) @ ''<br>'' @ t)"
    using br_no_overlap [of "c # x" t] by blast
  have nx: "\<not> sublist ''<br>'' x"
    using Cons.prems by (meson sublist_Cons_right)
  have "split_at ''<br>'' cur ((c # x) @ ''<br>'' @ t)
      = split_at ''<br>'' (cur @ [c]) (x @ ''<br>'' @ t)"
    using np by (simp del: prefix_code)
  then show ?case
    using Cons.IH [OF nx, of "cur @ [c]"] by simp
qed

lemma split_at_last:
  "\<not> sublist ''<br>'' x \<Longrightarrow> split_at ''<br>'' cur x = [cur @ x]"
proof (induction x arbitrary: cur)
  case Nil
  show ?case by simp
next
  case (Cons c x)
  have np: "\<not> prefix ''<br>'' (c # x)"
    using Cons.prems prefix_imp_sublist by blast
  have nx: "\<not> sublist ''<br>'' x"
    using Cons.prems by (meson sublist_Cons_right)
  have "split_at ''<br>'' cur (c # x) = split_at ''<br>'' (cur @ [c]) x"
    using np by (simp del: prefix_code)
  then show ?case
    using Cons.IH [OF nx, of "cur @ [c]"] by simp
qed

lemma Split_br_Join:
  "xs \<noteq> [] \<Longrightarrow> \<forall>x \<in> set xs. \<not> sublist ''<br>'' x \<Longrightarrow> Split_br (Join xs ''<br>'') = xs"
proof (induction xs "''<br>''" rule: Join.induct)
  case 1
  then show ?case by simp
next
  case (2 x)
  then show ?case by (simp add: Split_br_def split_at_last)
next
  case (3 x y ys)
  have "split_at ''<br>'' [] (x @ ''<br>'' @ Join (y # ys) ''<br>'')
      = x # split_at ''<br>'' [] (Join (y # ys) ''<br>'')"
    using 3 split_at_entry [of x "[]"] by simp
  then show ?case
    using 3 by (simp add: Split_br_def)
qed

lemma bucket_nonempty:
  "k \<in> set (version_keys name obs) \<Longrightarrow> bucket name obs k \<noteq> []"
  by (auto simp: set_version_keys bucket_def filter_empty_conv)

lemma bucket_no_br:
  assumes "\<forall>ob \<in> set obs. kept name ob \<longrightarrow> \<not> sublist ''<br>'' (hostPort ob)"
  shows "\<forall>x \<in> set (sort (bucket name obs k)). \<not> sublist ''<br>'' x"
  using assms by (auto simp: bucket_def)

lemma Split_br_key_row:
  assumes "\<forall>ob \<in> set obs. kept name ob \<longrightarrow> \<not> sublist ''<br>'' (hostPort ob)"
    and "k \<in> set (version_keys name obs)"
  shows "Split_br (key_row name obs k ! 0) = sort (bucket name obs k)"
proof -
  have "sort (bucket name obs k) \<noteq> []"
    using bucket_nonempty [OF assms(2)] by (metis length_0_conv length_sort)
  then show ?thesis
    using Split_br_Join bucket_no_br [OF assms(1)] by (simp add: key_row_def)
qed

subsection \<open>How main ends on each error\<close>





section \<open>The claims\<close>

text \<open>
  C1. Two runs of \<open>GenerateTableData\<close> whose inputs hold the same observations, in any
  order and split over the files in any way, return the same rows, whatever the order in
  which each run iterates its map.
\<close>

theorem C1_input_order:
  assumes "mset (Observations w1 files1) = mset (Observations w2 files2)"
  shows "GenerateTableData w1 order1 files1 name = GenerateTableData w2 order2 files2 name"
proof -
  have "mset (filter (kept name) (Observations w1 files1))
      = mset (filter (kept name) (Observations w2 files2))"
    using assms by (simp only: mset_filter)
  then show ?thesis
    unfolding GenerateTableData_rows by (rule table_cong)
qed

theorem C1_witness:
  "mset (Observations web_world [''/scans/h2.xml'', ''/scans/h1.xml'', ''/scans/h0.xml''])
     = mset (Observations web_world [''/scans/h0.xml'', ''/scans/bad.xml'', ''/scans/h1.xml'', ''/scans/h2.xml''])
   \<and> GenerateTableData web_world [] [''/scans/h2.xml'', ''/scans/h1.xml'', ''/scans/h0.xml''] ''http''
     = GenerateTableData web_world [2, 0] [''/scans/h0.xml'', ''/scans/bad.xml'', ''/scans/h1.xml'', ''/scans/h2.xml''] ''http''"
proof -
  have h: "mset (Observations web_world [''/scans/h2.xml'', ''/scans/h1.xml'', ''/scans/h0.xml''])
     = mset (Observations web_world [''/scans/h0.xml'', ''/scans/bad.xml'', ''/scans/h1.xml'', ''/scans/h2.xml''])"
    by (simp add: example_defs obs_defs)
  show ?thesis using h C1_input_order [OF h] by simp
qed

text \<open>
  C2. The rows that \<open>GenerateTableData\<close> returns are in ascending order of their
  third element, the version key: for all indices \<open>i < j\<close> of the output, the key of row
  \<open>i\<close> is at most the key of row \<open>j\<close>.
\<close>

theorem C2_sorted:
  "\<forall>i j. i < j \<and> j < length (GenerateTableData w order files name) \<longrightarrow>
     GenerateTableData w order files name ! i ! 2 \<le> GenerateTableData w order files name ! j ! 2"
proof -
  define out where "out = GenerateTableData w order files name"
  have "sorted (map (\<lambda>row. row ! 2) out)"
    by (simp add: out_def GenerateTableData_def sort_Slice_def Let_def)
  then have "map (\<lambda>row. row ! 2) out ! i \<le> map (\<lambda>row. row ! 2) out ! j"
    if "i < j" "j < length out" for i j
    using that by (simp add: sorted_iff_nth_mono del: nth_map)
  then show ?thesis
    unfolding out_def [symmetric] by simp
qed

theorem C2_witness:
  "(0::nat) < 1 \<and>
   1 < length (GenerateTableData web_world [1] [''/scans/h2.xml'', ''/scans/h1.xml''] ''http'') \<and>
   GenerateTableData web_world [1] [''/scans/h2.xml'', ''/scans/h1.xml''] ''http'' ! 0 ! 2
     \<le> GenerateTableData web_world [1] [''/scans/h2.xml'', ''/scans/h1.xml''] ''http'' ! 1 ! 2"
proof -
  have h: "(0::nat) < 1 \<and>
      1 < length (GenerateTableData web_world [1] [''/scans/h2.xml'', ''/scans/h1.xml''] ''http'')"
    by code_simp
  show ?thesis
    using h C2_sorted [of web_world "[1]" "[''/scans/h2.xml'', ''/scans/h1.xml'']" "''http''"]
    by blast
qed

text \<open>
  C3. The hosts field of every row is the join, with \<^verbatim>\<open><br>\<close>, of the row's
  \<^verbatim>\<open>host:port\<close> entries sorted ascending in byte order. When no kept observation has
  \<^verbatim>\<open><br>\<close> inside its \<^verbatim>\<open>host:port\<close>, splitting the field on \<^verbatim>\<open><br>\<close> gives that sorted
  list back, so the pieces are sorted. Without the condition the pieces need not be
  sorted: an address \<^verbatim>\<open>b<br>a\<close> with port 1 gives the field \<^verbatim>\<open>b<br>a:1\<close>, whose pieces
  are \<^verbatim>\<open>b\<close> and \<^verbatim>\<open>a:1\<close>.
\<close>

theorem C3_entries_sorted:
  "(\<forall>row \<in> set (GenerateTableData w order files name).
      row ! 0 = Join (sort (bucket name (Observations w files) (row ! 2))) ''<br>'')
   \<and> ((\<forall>ob \<in> set (Observations w files). kept name ob \<longrightarrow> \<not> sublist ''<br>'' (hostPort ob))
        \<longrightarrow> (\<forall>row \<in> set (GenerateTableData w order files name).
               Split_br (row ! 0) = sort (bucket name (Observations w files) (row ! 2))
               \<and> sorted (Split_br (row ! 0))))"
proof (intro conjI impI ballI)
  fix row
  assume "row \<in> set (GenerateTableData w order files name)"
  then show "row ! 0 = Join (sort (bucket name (Observations w files) (row ! 2))) ''<br>''"
    unfolding GenerateTableData_rows by (auto simp: key_row_def)
next
  fix row
  assume nobr: "\<forall>ob \<in> set (Observations w files). kept name ob \<longrightarrow> \<not> sublist ''<br>'' (hostPort ob)"
    and row: "row \<in> set (GenerateTableData w order files name)"
  from row obtain k where k: "k \<in> set (version_keys name (Observations w files))"
    and r: "row = key_row name (Observations w files) k"
    unfolding GenerateTableData_rows by auto
  have k2: "row ! 2 = k" by (simp add: r key_row_def)
  show "Split_br (row ! 0) = sort (bucket name (Observations w files) (row ! 2))"
    unfolding k2 unfolding r by (rule Split_br_key_row [OF nobr k])
  then show "sorted (Split_br (row ! 0))" by simp
qed

theorem C3_witness:
  "filter (\<lambda>ob. sublist ''<br>'' (hostPort ob))
     (filter (kept ''http'') (Observations web_world [''/scans/h2.xml'', ''/scans/h1.xml''])) = []
   \<and> [''1.1.1.1:80<br>2.2.2.2:80'', ''http'', ''nginx 1.18'']
       \<in> set (GenerateTableData web_world [] [''/scans/h2.xml'', ''/scans/h1.xml''] ''http'')
   \<and> Split_br ([''1.1.1.1:80<br>2.2.2.2:80'', ''http'', ''nginx 1.18''] ! 0)
       = [''1.1.1.1:80'', ''2.2.2.2:80'']
   \<and> sorted (Split_br ([''1.1.1.1:80<br>2.2.2.2:80'', ''http'', ''nginx 1.18''] ! 0))"
proof -
  have h: "\<forall>ob \<in> set (Observations web_world [''/scans/h2.xml'', ''/scans/h1.xml'']).
       kept ''http'' ob \<longrightarrow> \<not> sublist ''<br>'' (hostPort ob)"
    by code_simp
  have r: "[''1.1.1.1:80<br>2.2.2.2:80'', ''http'', ''nginx 1.18'']
       \<in> set (GenerateTableData web_world [] [''/scans/h2.xml'', ''/scans/h1.xml''] ''http'')"
    by code_simp
  have s: "Split_br ([''1.1.1.1:80<br>2.2.2.2:80'', ''http'', ''nginx 1.18''] ! 0)
       = [''1.1.1.1:80'', ''2.2.2.2:80'']"
    by code_simp
  note c = C3_entries_sorted [of web_world "[]" "[''/scans/h2.xml'', ''/scans/h1.xml'']" "''http''"]
  have "sorted (Split_br ([''1.1.1.1:80<br>2.2.2.2:80'', ''http'', ''nginx 1.18''] ! 0))"
    using c [THEN conjunct2, THEN mp, OF h, THEN bspec, OF r] by (rule conjunct2)
  moreover have "filter (\<lambda>ob. sublist ''<br>'' (hostPort ob))
     (filter (kept ''http'') (Observations web_world [''/scans/h2.xml'', ''/scans/h1.xml''])) = []"
    by code_simp
  ultimately show ?thesis using r s by blast
qed

theorem C3_counterexample:
  "GenerateTableData markup_world [] [''m.xml''] ''http'' = [[''b<br>a:1'', ''http'', ''nginx 1.18'']]
   \<and> Split_br (GenerateTableData markup_world [] [''m.xml''] ''http'' ! 0 ! 0) = [''b'', ''a:1'']
   \<and> \<not> sorted (Split_br (GenerateTableData markup_world [] [''m.xml''] ''http'' ! 0 ! 0))"
  by code_simp

text \<open>
  C4. Observations whose port state is \<^verbatim>\<open>filtered\<close> contribute nothing: the loop
  leaves the map as it is on a filtered port, whatever its service name, and two inputs
  that hold the same observations apart from the filtered ones give the same rows.
\<close>

theorem C4_filtered:
  "(State (PortState p) = ''filtered'' \<longrightarrow> port_step name r m p = m)
   \<and> (mset (filter (\<lambda>ob. portState ob \<noteq> ''filtered'') (Observations w1 files1))
        = mset (filter (\<lambda>ob. portState ob \<noteq> ''filtered'') (Observations w2 files2))
      \<longrightarrow> GenerateTableData w1 order1 files1 name = GenerateTableData w2 order2 files2 name)"
proof (intro conjI impI)
  assume "State (PortState p) = ''filtered''"
  then show "port_step name r m p = m"
    by (simp add: port_step_def)
next
  assume "mset (filter (\<lambda>ob. portState ob \<noteq> ''filtered'') (Observations w1 files1))
        = mset (filter (\<lambda>ob. portState ob \<noteq> ''filtered'') (Observations w2 files2))"
  then have "mset (filter (kept name) (Observations w1 files1))
      = mset (filter (kept name) (Observations w2 files2))"
    unfolding kept_filter_state by (simp only: mset_filter)
  then show "GenerateTableData w1 order1 files1 name = GenerateTableData w2 order2 files2 name"
    unfolding GenerateTableData_rows by (rule table_cong)
qed

theorem C4_witness:
  "State (PortState (mk_port ''80'' ''filtered'' ''http'' ''nginx'' ''1.18'')) = ''filtered''
   \<and> port_step ''http'' (mk_run [''4.4.4.4''] [mk_port ''80'' ''filtered'' ''http'' ''nginx'' ''1.18''])
         [(''nginx 1.18'', [''2.2.2.2:80''])] (mk_port ''80'' ''filtered'' ''http'' ''nginx'' ''1.18'')
       = [(''nginx 1.18'', [''2.2.2.2:80''])]
   \<and> mset (filter (\<lambda>ob. portState ob \<noteq> ''filtered'')
       (Observations web_world [''/scans/h2.xml'', ''/scans/filtered.xml'']))
     = mset (filter (\<lambda>ob. portState ob \<noteq> ''filtered'')
       (Observations web_world [''/scans/h2.xml'']))
   \<and> Observations web_world [''/scans/filtered.xml'']
     = [\<lparr>host = ''4.4.4.4'', port = ''80'', portState = ''filtered'', serviceName = ''http'',
         serviceProduct = ''nginx'', serviceVersion = ''1.18''\<rparr>]
   \<and> GenerateTableData web_world [] [''/scans/h2.xml'', ''/scans/filtered.xml''] ''http''
     = GenerateTableData web_world [] [''/scans/h2.xml''] ''http''"
proof -
  have f: "State (PortState (mk_port ''80'' ''filtered'' ''http'' ''nginx'' ''1.18'')) = ''filtered''"
    by (simp add: mk_port_def)
  have h: "mset (filter (\<lambda>ob. portState ob \<noteq> ''filtered'')
       (Observations web_world [''/scans/h2.xml'', ''/scans/filtered.xml'']))
     = mset (filter (\<lambda>ob. portState ob \<noteq> ''filtered'')
       (Observations web_world [''/scans/h2.xml'']))"
    by (simp add: example_defs obs_defs)
  have o: "Observations web_world [''/scans/filtered.xml'']
     = [\<lparr>host = ''4.4.4.4'', port = ''80'', portState = ''filtered'', serviceName = ''http'',
         serviceProduct = ''nginx'', serviceVersion = ''1.18''\<rparr>]"
    by (simp add: example_defs obs_defs)
  note a = C4_filtered [THEN conjunct1, THEN mp, OF f]
  note b = C4_filtered [THEN conjunct2, THEN mp, OF h]
  show ?thesis
    by (intro conjI f a h o b)
qed

text \<open>
  C5. The keys of the rows are exactly the different strings product, one space, version
  of the kept observations, the space being there also when a side is empty; and the hosts
  of a row are those of exactly the kept observations that have the row's key.
\<close>

theorem C5_grouping_key:
  "map (\<lambda>row. row ! 2) (GenerateTableData w order files name)
     = sort (remdups (map (\<lambda>ob. serviceProduct ob @ '' '' @ serviceVersion ob)
         (filter (kept name) (Observations w files))))
   \<and> (\<forall>row \<in> set (GenerateTableData w order files name).
        row ! 0 = Join (sort (map hostPort
          (filter (\<lambda>ob. kept name ob \<and> serviceProduct ob @ '' '' @ serviceVersion ob = row ! 2)
             (Observations w files)))) ''<br>'')"
proof -
  have keys: "version_keys name obs
      = sort (remdups (map (\<lambda>ob. serviceProduct ob @ '' '' @ serviceVersion ob)
          (filter (kept name) obs)))" for obs
    by (simp add: version_keys_def VersionKey_def [abs_def])
  show ?thesis
    unfolding GenerateTableData_rows keys_of_rows keys [symmetric]
    by (auto simp: key_row_def bucket_def VersionKey_def)
qed

theorem C5_witness:
  "map (\<lambda>row. row ! 2)
     (GenerateTableData web_world [1] [''/scans/h0.xml'', ''/scans/h1.xml'', ''/scans/h2.xml''] ''http'')
     = ['' '', ''Apache httpd 2.4'', ''nginx 1.18'']
   \<and> [''1.1.1.1:80<br>2.2.2.2:80'', ''http'', ''nginx 1.18'']
       \<in> set (GenerateTableData web_world [1] [''/scans/h0.xml'', ''/scans/h1.xml'', ''/scans/h2.xml''] ''http'')
   \<and> [''1.1.1.1:80<br>2.2.2.2:80'', ''http'', ''nginx 1.18''] ! 0
     = Join (sort (map hostPort
          (filter (\<lambda>ob. kept ''http'' ob \<and> serviceProduct ob @ '' '' @ serviceVersion ob
              = [''1.1.1.1:80<br>2.2.2.2:80'', ''http'', ''nginx 1.18''] ! 2)
             (Observations web_world [''/scans/h0.xml'', ''/scans/h1.xml'', ''/scans/h2.xml''])))) ''<br>''"
proof -
  have k: "sort (remdups (map (\<lambda>ob. serviceProduct ob @ '' '' @ serviceVersion ob)
         (filter (kept ''http'') (Observations web_world [''/scans/h0.xml'', ''/scans/h1.xml'', ''/scans/h2.xml'']))))
     = ['' '', ''Apache httpd 2.4'', ''nginx 1.18'']"
    by code_simp
  have r: "[''1.1.1.1:80<br>2.2.2.2:80'', ''http'', ''nginx 1.18'']
       \<in> set (GenerateTableData web_world [1] [''/scans/h0.xml'', ''/scans/h1.xml'', ''/scans/h2.xml''] ''http'')"
    by code_simp
  note c = C5_grouping_key [of web_world "[1]"
      "[''/scans/h0.xml'', ''/scans/h1.xml'', ''/scans/h2.xml'']" "''http''"]
  have a: "map (\<lambda>row. row ! 2)
     (GenerateTableData web_world [1] [''/scans/h0.xml'', ''/scans/h1.xml'', ''/scans/h2.xml''] ''http'')
     = ['' '', ''Apache httpd 2.4'', ''nginx 1.18'']"
    using c [THEN conjunct1] k by (rule trans)
  have b: "[''1.1.1.1:80<br>2.2.2.2:80'', ''http'', ''nginx 1.18''] ! 0
     = Join (sort (map hostPort
          (filter (\<lambda>ob. kept ''http'' ob \<and> serviceProduct ob @ '' '' @ serviceVersion ob
              = [''1.1.1.1:80<br>2.2.2.2:80'', ''http'', ''nginx 1.18''] ! 2)
             (Observations web_world [''/scans/h0.xml'', ''/scans/h1.xml'', ''/scans/h2.xml''])))) ''<br>''"
    using c [THEN conjunct2] r by (rule bspec)
  show ?thesis
    by (rule conjI [OF a conjI [OF r b]])
qed




text \<open>
  C7. Nothing is deduplicated: every row is the join of the sorted bucket of its key, and
  the buckets of the rows together hold, as a multiset, exactly the \<^verbatim>\<open>host:port\<close> of
  the kept observations, each as often as it occurs in the input. When no kept
  \<^verbatim>\<open>host:port\<close> has \<^verbatim>\<open><br>\<close> inside, the same multiset is read back from the rows by
  splitting the hosts fields. Without the condition the strings read from the rows need
  not be those of the kept observations: the address \<^verbatim>\<open>b<br>a\<close> with port 1 gives the
  field \<^verbatim>\<open>b<br>a:1\<close>, read back as \<^verbatim>\<open>b\<close> and \<^verbatim>\<open>a:1\<close>, and the one entry
  \<^verbatim>\<open>x:1<br>y:2\<close> gives the same row as the two entries \<^verbatim>\<open>x:1\<close> and \<^verbatim>\<open>y:2\<close>.
\<close>

theorem C7_no_dedup:
  "GenerateTableData w order files name
     = map (\<lambda>k. [Join (sort (bucket name (Observations w files) k)) ''<br>'', name, k])
         (map (\<lambda>row. row ! 2) (GenerateTableData w order files name))
   \<and> (\<Sum>k\<leftarrow>map (\<lambda>row. row ! 2) (GenerateTableData w order files name).
         mset (sort (bucket name (Observations w files) k)))
       = mset (map hostPort (filter (kept name) (Observations w files)))
   \<and> ((\<forall>ob \<in> set (Observations w files). kept name ob \<longrightarrow> \<not> sublist ''<br>'' (hostPort ob))
        \<longrightarrow> mset (concat (map (\<lambda>row. Split_br (row ! 0)) (GenerateTableData w order files name)))
            = mset (map hostPort (filter (kept name) (Observations w files))))"
proof (intro conjI impI)
  define obs where "obs = Observations w files"
  define ks where "ks = version_keys name obs"
  have out: "GenerateTableData w order files name = map (key_row name obs) ks"
    by (simp add: GenerateTableData_rows obs_def ks_def)
  have keys: "map (\<lambda>row. row ! 2) (GenerateTableData w order files name) = ks"
    by (simp only: out keys_of_rows)
  show "GenerateTableData w order files name
     = map (\<lambda>k. [Join (sort (bucket name (Observations w files) k)) ''<br>'', name, k])
         (map (\<lambda>row. row ! 2) (GenerateTableData w order files name))"
    unfolding keys obs_def [symmetric] by (simp add: out key_row_def [abs_def])
  show sum: "(\<Sum>k\<leftarrow>map (\<lambda>row. row ! 2) (GenerateTableData w order files name).
         mset (sort (bucket name (Observations w files) k)))
       = mset (map hostPort (filter (kept name) (Observations w files)))"
    unfolding keys obs_def [symmetric] using sum_buckets [of name obs]
    by (simp add: ks_def)
  assume nobr: "\<forall>ob \<in> set (Observations w files). kept name ob \<longrightarrow> \<not> sublist ''<br>'' (hostPort ob)"
  have "Split_br (key_row name obs k ! 0) = sort (bucket name obs k)" if "k \<in> set ks" for k
    using Split_br_key_row [OF nobr] that by (simp add: ks_def obs_def)
  then have "map (\<lambda>row. Split_br (row ! 0)) (map (key_row name obs) ks)
      = map (\<lambda>k. sort (bucket name obs k)) ks"
    by simp
  then have "mset (concat (map (\<lambda>row. Split_br (row ! 0)) (GenerateTableData w order files name)))
      = (\<Sum>k\<leftarrow>ks. mset (sort (bucket name obs k)))"
    by (simp only: out mset_concat map_map comp_def)
  then show "mset (concat (map (\<lambda>row. Split_br (row ! 0)) (GenerateTableData w order files name)))
            = mset (map hostPort (filter (kept name) (Observations w files)))"
    using sum unfolding keys obs_def [symmetric] by simp
qed

theorem C7_witness:
  "filter (\<lambda>ob. sublist ''<br>'' (hostPort ob))
     (filter (kept ''http'')
       (Observations web_world [''/scans/h2.xml'', ''/scans/h2.xml'', ''/scans/h1.xml''])) = []
   \<and> GenerateTableData web_world [] [''/scans/h2.xml'', ''/scans/h2.xml'', ''/scans/h1.xml''] ''http''
     = [[''1.1.1.1:8080'', ''http'', ''Apache httpd 2.4''],
        [''1.1.1.1:80<br>2.2.2.2:80<br>2.2.2.2:80'', ''http'', ''nginx 1.18'']]
   \<and> mset (concat (map (\<lambda>row. Split_br (row ! 0))
         (GenerateTableData web_world [] [''/scans/h2.xml'', ''/scans/h2.xml'', ''/scans/h1.xml''] ''http'')))
     = mset (map hostPort (filter (kept ''http'')
         (Observations web_world [''/scans/h2.xml'', ''/scans/h2.xml'', ''/scans/h1.xml''])))"
proof -
  have h: "\<forall>ob \<in> set (Observations web_world [''/scans/h2.xml'', ''/scans/h2.xml'', ''/scans/h1.xml'']).
       kept ''http'' ob \<longrightarrow> \<not> sublist ''<br>'' (hostPort ob)"
    by code_simp
  have r: "GenerateTableData web_world [] [''/scans/h2.xml'', ''/scans/h2.xml'', ''/scans/h1.xml''] ''http''
     = [[''1.1.1.1:8080'', ''http'', ''Apache httpd 2.4''],
        [''1.1.1.1:80<br>2.2.2.2:80<br>2.2.2.2:80'', ''http'', ''nginx 1.18'']]"
    by code_simp
  note c = C7_no_dedup [of web_world "[]"
      "[''/scans/h2.xml'', ''/scans/h2.xml'', ''/scans/h1.xml'']" "''http''"]
  have n: "filter (\<lambda>ob. sublist ''<br>'' (hostPort ob))
     (filter (kept ''http'')
       (Observations web_world [''/scans/h2.xml'', ''/scans/h2.xml'', ''/scans/h1.xml''])) = []"
    by code_simp
  show ?thesis
    by (rule conjI [OF n conjI [OF r c [THEN conjunct2, THEN conjunct2, THEN mp, OF h]]])
qed

theorem C7_counterexample:
  "GenerateTableData markup_world [] [''m.xml''] ''http'' = [[''b<br>a:1'', ''http'', ''nginx 1.18'']]
   \<and> mset (concat (map (\<lambda>row. Split_br (row ! 0))
         (GenerateTableData markup_world [] [''m.xml''] ''http''))) = {#''b'', ''a:1''#}
   \<and> mset (map hostPort (filter (kept ''http'') (Observations markup_world [''m.xml''])))
       = {#''b<br>a:1''#}
   \<and> mset (concat (map (\<lambda>row. Split_br (row ! 0))
         (GenerateTableData markup_world [] [''m.xml''] ''http'')))
       \<noteq> mset (map hostPort (filter (kept ''http'') (Observations markup_world [''m.xml''])))
   \<and> GenerateTableData joined_world [] [''one.xml''] ''http''
       = [[''x:1<br>y:2'', ''http'', ''nginx 1.18'']]
   \<and> GenerateTableData joined_world [] [''x.xml'', ''y.xml''] ''http''
       = [[''x:1<br>y:2'', ''http'', ''nginx 1.18'']]
   \<and> mset (map hostPort (filter (kept ''http'') (Observations joined_world [''one.xml''])))
       = {#''x:1<br>y:2''#}
   \<and> mset (map hostPort (filter (kept ''http'') (Observations joined_world [''x.xml'', ''y.xml''])))
       = {#''x:1'', ''y:2''#}
   \<and> mset (map hostPort (filter (kept ''http'') (Observations joined_world [''one.xml''])))
       \<noteq> mset (map hostPort (filter (kept ''http'')
             (Observations joined_world [''x.xml'', ''y.xml''])))"
proof -
  have rows: "GenerateTableData markup_world [] [''m.xml''] ''http''
      = [[''b<br>a:1'', ''http'', ''nginx 1.18'']]"
    by code_simp
  have pieces: "concat (map (\<lambda>row. Split_br (row ! 0))
      (GenerateTableData markup_world [] [''m.xml''] ''http'')) = [''b'', ''a:1'']"
    by code_simp
  have kept1: "map hostPort (filter (kept ''http'') (Observations markup_world [''m.xml'']))
      = [''b<br>a:1'']"
    by code_simp
  have one: "GenerateTableData joined_world [] [''one.xml''] ''http''
      = [[''x:1<br>y:2'', ''http'', ''nginx 1.18'']]"
    by code_simp
  have two: "GenerateTableData joined_world [] [''x.xml'', ''y.xml''] ''http''
      = [[''x:1<br>y:2'', ''http'', ''nginx 1.18'']]"
    by code_simp
  have kept2: "map hostPort (filter (kept ''http'') (Observations joined_world [''one.xml'']))
      = [''x:1<br>y:2'']"
    by code_simp
  have kept3: "map hostPort (filter (kept ''http'')
      (Observations joined_world [''x.xml'', ''y.xml''])) = [''x:1'', ''y:2'']"
    by code_simp
  have m1: "mset (concat (map (\<lambda>row. Split_br (row ! 0))
         (GenerateTableData markup_world [] [''m.xml''] ''http''))) = {#''b'', ''a:1''#}"
    unfolding pieces by simp
  have m2: "mset (map hostPort (filter (kept ''http'') (Observations markup_world [''m.xml''])))
       = {#''b<br>a:1''#}"
    unfolding kept1 by simp
  have n1: "mset (concat (map (\<lambda>row. Split_br (row ! 0))
         (GenerateTableData markup_world [] [''m.xml''] ''http'')))
       \<noteq> mset (map hostPort (filter (kept ''http'') (Observations markup_world [''m.xml''])))"
    unfolding m1 m2 by simp
  have m3: "mset (map hostPort (filter (kept ''http'') (Observations joined_world [''one.xml''])))
       = {#''x:1<br>y:2''#}"
    unfolding kept2 by simp
  have m4: "mset (map hostPort (filter (kept ''http'')
         (Observations joined_world [''x.xml'', ''y.xml''])))
       = {#''x:1'', ''y:2''#}"
    unfolding kept3 by simp
  have n2: "mset (map hostPort (filter (kept ''http'') (Observations joined_world [''one.xml''])))
       \<noteq> mset (map hostPort (filter (kept ''http'')
             (Observations joined_world [''x.xml'', ''y.xml''])))"
    unfolding m3 m4 by simp
  show ?thesis
    by (intro conjI rows m1 m2 n1 one two m3 m4 n2)
qed

text \<open>
  C8. Observations whose service name is not equal to the requested name, byte for byte,
  contribute nothing: the loop leaves the map as it is on such a port, and two inputs
  that hold the same observations with the requested name give the same rows. The example
  is a port whose service name differs from the requested one in case only.
\<close>

theorem C8_name:
  "(Name (Service p) \<noteq> name \<longrightarrow> port_step name r m p = m)
   \<and> (mset (filter (\<lambda>ob. serviceName ob = name) (Observations w1 files1))
        = mset (filter (\<lambda>ob. serviceName ob = name) (Observations w2 files2))
      \<longrightarrow> GenerateTableData w1 order1 files1 name = GenerateTableData w2 order2 files2 name)"
proof (intro conjI impI)
  assume "Name (Service p) \<noteq> name"
  then show "port_step name r m p = m"
    by (simp add: port_step_def)
next
  assume "mset (filter (\<lambda>ob. serviceName ob = name) (Observations w1 files1))
        = mset (filter (\<lambda>ob. serviceName ob = name) (Observations w2 files2))"
  then have "mset (filter (kept name) (Observations w1 files1))
      = mset (filter (kept name) (Observations w2 files2))"
    unfolding kept_filter_name by (simp only: mset_filter)
  then show "GenerateTableData w1 order1 files1 name = GenerateTableData w2 order2 files2 name"
    unfolding GenerateTableData_rows by (rule table_cong)
qed

theorem C8_witness:
  "Name (Service (mk_port ''80'' ''open'' ''HTTP'' ''nginx'' ''1.18'')) \<noteq> ''http''
   \<and> port_step ''http'' (mk_run [''3.3.3.3''] [mk_port ''80'' ''open'' ''HTTP'' ''nginx'' ''1.18''])
         [(''nginx 1.18'', [''2.2.2.2:80''])] (mk_port ''80'' ''open'' ''HTTP'' ''nginx'' ''1.18'')
       = [(''nginx 1.18'', [''2.2.2.2:80''])]
   \<and> mset (filter (\<lambda>ob. serviceName ob = ''http'')
       (Observations web_world [''/scans/h2.xml'', ''/scans/upper.xml'']))
     = mset (filter (\<lambda>ob. serviceName ob = ''http'')
       (Observations web_world [''/scans/h2.xml'']))
   \<and> Observations web_world [''/scans/upper.xml'']
     = [\<lparr>host = ''3.3.3.3'', port = ''80'', portState = ''open'', serviceName = ''HTTP'',
         serviceProduct = ''nginx'', serviceVersion = ''1.18''\<rparr>]
   \<and> GenerateTableData web_world [] [''/scans/h2.xml'', ''/scans/upper.xml''] ''http''
     = GenerateTableData web_world [] [''/scans/h2.xml''] ''http''"
proof -
  have f: "Name (Service (mk_port ''80'' ''open'' ''HTTP'' ''nginx'' ''1.18'')) \<noteq> ''http''"
    by (simp add: mk_port_def)
  have h: "mset (filter (\<lambda>ob. serviceName ob = ''http'')
       (Observations web_world [''/scans/h2.xml'', ''/scans/upper.xml'']))
     = mset (filter (\<lambda>ob. serviceName ob = ''http'')
       (Observations web_world [''/scans/h2.xml'']))"
    by (simp add: example_defs obs_defs)
  have o: "Observations web_world [''/scans/upper.xml'']
     = [\<lparr>host = ''3.3.3.3'', port = ''80'', portState = ''open'', serviceName = ''HTTP'',
         serviceProduct = ''nginx'', serviceVersion = ''1.18''\<rparr>]"
    by (simp add: example_defs obs_defs)
  note a = C8_name [THEN conjunct1, THEN mp, OF f]
  note b = C8_name [THEN conjunct2, THEN mp, OF h]
  show ?thesis
    by (intro conjI f a h o b)
qed

text \<open>
  C9. The scenario of the specification: on the three observations of hosts 10.0.0.1,
  10.0.0.2 (open) and 10.0.0.3 (filtered), in any order, and the service \<^verbatim>\<open>ms-sql-s\<close>,
  the result is the single row with hosts \<^verbatim>\<open>10.0.0.1:1433<br>10.0.0.2:1433\<close> and key
  \<^verbatim>\<open>Microsoft SQL Server 2019\<close>.
\<close>

theorem C9_scenario:
  assumes "mset (Observations w files) =
     {#\<lparr>host = ''10.0.0.1'', port = ''1433'', portState = ''open'', serviceName = ''ms-sql-s'',
         serviceProduct = ''Microsoft SQL Server'', serviceVersion = ''2019''\<rparr>,
       \<lparr>host = ''10.0.0.2'', port = ''1433'', portState = ''open'', serviceName = ''ms-sql-s'',
         serviceProduct = ''Microsoft SQL Server'', serviceVersion = ''2019''\<rparr>,
       \<lparr>host = ''10.0.0.3'', port = ''1433'', portState = ''filtered'', serviceName = ''ms-sql-s'',
         serviceProduct = ''X'', serviceVersion = ''1''\<rparr>#}"
  shows "GenerateTableData w order files ''ms-sql-s''
     = [[''10.0.0.1:1433<br>10.0.0.2:1433'', ''ms-sql-s'', ''Microsoft SQL Server 2019'']]"
proof -
  define obs where "obs =
     [\<lparr>host = ''10.0.0.1'', port = ''1433'', portState = ''open'', serviceName = ''ms-sql-s'',
         serviceProduct = ''Microsoft SQL Server'', serviceVersion = ''2019''\<rparr>,
       \<lparr>host = ''10.0.0.2'', port = ''1433'', portState = ''open'', serviceName = ''ms-sql-s'',
         serviceProduct = ''Microsoft SQL Server'', serviceVersion = ''2019''\<rparr>,
       \<lparr>host = ''10.0.0.3'', port = ''1433'', portState = ''filtered'', serviceName = ''ms-sql-s'',
         serviceProduct = ''X'', serviceVersion = ''1''\<rparr>]"
  have "mset (Observations w files) = mset obs"
    unfolding assms obs_def by simp
  then have "mset (filter (kept ''ms-sql-s'') (Observations w files))
      = mset (filter (kept ''ms-sql-s'') obs)"
    by (simp only: mset_filter)
  then have "GenerateTableData w order files ''ms-sql-s''
      = map (key_row ''ms-sql-s'' obs) (version_keys ''ms-sql-s'' obs)"
    unfolding GenerateTableData_rows by (rule table_cong)
  also have "\<dots> = [[''10.0.0.1:1433<br>10.0.0.2:1433'', ''ms-sql-s'', ''Microsoft SQL Server 2019'']]"
    unfolding obs_def by code_simp
  finally show ?thesis .
qed

theorem C9_witness:
  "mset (Observations scenario_world [''a.xml'', ''b.xml'', ''c.xml'']) =
     {#\<lparr>host = ''10.0.0.1'', port = ''1433'', portState = ''open'', serviceName = ''ms-sql-s'',
         serviceProduct = ''Microsoft SQL Server'', serviceVersion = ''2019''\<rparr>,
       \<lparr>host = ''10.0.0.2'', port = ''1433'', portState = ''open'', serviceName = ''ms-sql-s'',
         serviceProduct = ''Microsoft SQL Server'', serviceVersion = ''2019''\<rparr>,
       \<lparr>host = ''10.0.0.3'', port = ''1433'', portState = ''filtered'', serviceName = ''ms-sql-s'',
         serviceProduct = ''X'', serviceVersion = ''1''\<rparr>#}
   \<and> GenerateTableData scenario_world [] [''a.xml'', ''b.xml'', ''c.xml''] ''ms-sql-s''
     = [[''10.0.0.1:1433<br>10.0.0.2:1433'', ''ms-sql-s'', ''Microsoft SQL Server 2019'']]"
proof -
  have h: "mset (Observations scenario_world [''a.xml'', ''b.xml'', ''c.xml'']) =
     {#\<lparr>host = ''10.0.0.1'', port = ''1433'', portState = ''open'', serviceName = ''ms-sql-s'',
         serviceProduct = ''Microsoft SQL Server'', serviceVersion = ''2019''\<rparr>,
       \<lparr>host = ''10.0.0.2'', port = ''1433'', portState = ''open'', serviceName = ''ms-sql-s'',
         serviceProduct = ''Microsoft SQL Server'', serviceVersion = ''2019''\<rparr>,
       \<lparr>host = ''10.0.0.3'', port = ''1433'', portState = ''filtered'', serviceName = ''ms-sql-s'',
         serviceProduct = ''X'', serviceVersion = ''1''\<rparr>#}"
    by (simp add: example_defs obs_defs)
  show ?thesis
    by (rule conjI [OF h C9_scenario [OF h]])
qed

text \<open>
  C10. A kept port of a document that lists no address is not dropped: the loop appends
  the entry \<^verbatim>\<open>:\<close> followed by the port to the bucket of the port's key, and the row of
  that key, which is in the table, holds that entry.
\<close>

theorem C10_empty_host:
  assumes "f \<in> set files" "ReadFile w f = Inr bytes" "Unmarshal w bytes = Inr r"
    and "Address (Host r) = []"
    and "p \<in> set (Port (Ports (Host r)))"
    and "State (PortState p) \<noteq> ''filtered''" "Name (Service p) = name"
  shows "(\<forall>m. map_index (port_step name r m p) (Product (Service p) @ '' '' @ Version (Service p))
            = map_index m (Product (Service p) @ '' '' @ Version (Service p)) @ ['':'' @ Portid p])
   \<and> [Join (sort (bucket name (Observations w files)
            (Product (Service p) @ '' '' @ Version (Service p)))) ''<br>'',
        name, Product (Service p) @ '' '' @ Version (Service p)]
       \<in> set (GenerateTableData w order files name)
   \<and> '':'' @ Portid p
       \<in> set (sort (bucket name (Observations w files)
            (Product (Service p) @ '' '' @ Version (Service p))))"
proof (intro conjI allI)
  define ob where "ob = observation r p"
  define k where "k = Product (Service p) @ '' '' @ Version (Service p)"
  have kept: "kept name ob" and key: "VersionKey ob = k" and hp: "hostPort ob = '':'' @ Portid p"
    using assms by (simp_all add: ob_def k_def observation_def kept_def VersionKey_def hostPort_def)
  have "ob \<in> set (file_observations w f)"
    using assms by (simp add: file_observations_def ob_def)
  then have mem: "ob \<in> set (Observations w files)"
    using assms(1) by (auto simp: Observations_def)
  fix m
  show "map_index (port_step name r m p) (Product (Service p) @ '' '' @ Version (Service p))
      = map_index m (Product (Service p) @ '' '' @ Version (Service p)) @ ['':'' @ Portid p]"
    unfolding k_def [symmetric]
    using kept key hp by (simp add: port_step_obs ob_def [symmetric] map_index_obs_step)
  have "k \<in> set (version_keys name (Observations w files))"
    using mem kept key by (auto simp: set_version_keys)
  then show "[Join (sort (bucket name (Observations w files)
            (Product (Service p) @ '' '' @ Version (Service p)))) ''<br>'',
        name, Product (Service p) @ '' '' @ Version (Service p)]
       \<in> set (GenerateTableData w order files name)"
    unfolding k_def [symmetric] GenerateTableData_rows
    by (auto simp: key_row_def)
  show "'':'' @ Portid p
       \<in> set (sort (bucket name (Observations w files)
            (Product (Service p) @ '' '' @ Version (Service p))))"
    unfolding k_def [symmetric]
    using mem kept key hp by (force simp: bucket_def)
qed

theorem C10_witness:
  "''/scans/h0.xml'' \<in> set [''/scans/h1.xml'', ''/scans/h0.xml'']
   \<and> ReadFile web_world ''/scans/h0.xml'' = Inr ''H0''
   \<and> Unmarshal web_world ''H0'' = Inr (mk_run [] [mk_port ''80'' ''open'' ''http'' '''' ''''])
   \<and> Address (Host (mk_run [] [mk_port ''80'' ''open'' ''http'' '''' ''''])) = []
   \<and> mk_port ''80'' ''open'' ''http'' '''' ''''
       \<in> set (Port (Ports (Host (mk_run [] [mk_port ''80'' ''open'' ''http'' '''' '''']))))
   \<and> State (PortState (mk_port ''80'' ''open'' ''http'' '''' '''')) \<noteq> ''filtered''
   \<and> Name (Service (mk_port ''80'' ''open'' ''http'' '''' '''')) = ''http''
   \<and> ['':80'', ''http'', '' '']
       \<in> set (GenerateTableData web_world [1] [''/scans/h1.xml'', ''/scans/h0.xml''] ''http'')"
proof -
  have h1: "''/scans/h0.xml'' \<in> set [''/scans/h1.xml'', ''/scans/h0.xml'']" by simp
  have h2: "ReadFile web_world ''/scans/h0.xml'' = Inr ''H0''"
    by (simp add: example_defs)
  have h3: "Unmarshal web_world ''H0'' = Inr (mk_run [] [mk_port ''80'' ''open'' ''http'' '''' ''''])"
    by (simp add: web_world_def mk_world_def)
  have h4: "Address (Host (mk_run [] [mk_port ''80'' ''open'' ''http'' '''' ''''])) = []"
    by (simp add: mk_run_def)
  have h5: "mk_port ''80'' ''open'' ''http'' '''' ''''
       \<in> set (Port (Ports (Host (mk_run [] [mk_port ''80'' ''open'' ''http'' '''' '''']))))"
    by (simp add: mk_run_def)
  have h6: "State (PortState (mk_port ''80'' ''open'' ''http'' '''' '''')) \<noteq> ''filtered''"
    by (simp add: mk_port_def)
  have h7: "Name (Service (mk_port ''80'' ''open'' ''http'' '''' '''')) = ''http''"
    by (simp add: mk_port_def)
  have e: "[Join (sort (bucket ''http''
              (Observations web_world [''/scans/h1.xml'', ''/scans/h0.xml''])
              (Product (Service (mk_port ''80'' ''open'' ''http'' '''' '''')) @ '' '' @
               Version (Service (mk_port ''80'' ''open'' ''http'' '''' ''''))))) ''<br>'',
            ''http'',
            Product (Service (mk_port ''80'' ''open'' ''http'' '''' '''')) @ '' '' @
            Version (Service (mk_port ''80'' ''open'' ''http'' '''' ''''))]
         = ['':80'', ''http'', '' '']"
    by code_simp
  have "['':80'', ''http'', '' '']
       \<in> set (GenerateTableData web_world [1] [''/scans/h1.xml'', ''/scans/h0.xml''] ''http'')"
    using C10_empty_host [OF h1 h2 h3 h4 h5 h6 h7, of "[1]", THEN conjunct2, THEN conjunct1]
    unfolding e .
  with h1 h2 h3 h4 h5 h6 h7 show ?thesis by blast
qed

end
